theory Spec2Isabelle
  imports Main "HOL-Library.Sublist"
begin

section \<open>JavaScript values as the handlers see them\<close>

text \<open>
  The request body is whatever JSON the client sent, so the four fields that the handlers
  destructure from it are arbitrary JSON values, or \<open>undefined\<close> when the key is absent.
  Numbers are kept as integers: the handlers only test a number for truthiness and store
  it. Identifiers are JavaScript Numbers holding integers; they are modelled by \<open>int\<close>,
  which is exact for counters below \<open>2 ^ 53\<close>.
\<close>

datatype jsval =
    JUndefined
  | JNull
  | JBool bool
  | JNum int
  | JStr string
  | JArr "jsval list"
  | JObj "(string \<times> jsval) list"

text \<open>ToBoolean: what \<open>if (v)\<close>, \<open>!v\<close> and \<open>v || w\<close> test.\<close>

fun truthy :: "jsval \<Rightarrow> bool" where
  "truthy JUndefined = False"
| "truthy JNull = False"
| "truthy (JBool b) = b"
| "truthy (JNum n) = (n \<noteq> 0)"
| "truthy (JStr s) = (s \<noteq> [])"
| "truthy (JArr xs) = True"
| "truthy (JObj kvs) = True"

text \<open>The operator \<open>a || b\<close>.\<close>

definition js_or :: "jsval \<Rightarrow> jsval \<Rightarrow> jsval" where
  "js_or a b = (if truthy a then a else b)"

text \<open>
  \<open>req.body\<close> is the object that the JSON body parser made of the request; reading a key
  that it does not have gives \<open>undefined\<close>.
\<close>

type_synonym body = "string \<rightharpoonup> jsval"

definition body_prop :: "body \<Rightarrow> string \<Rightarrow> jsval" where
  "body_prop b k = (case b k of None \<Rightarrow> JUndefined | Some v \<Rightarrow> v)"

subsection \<open>parseInt\<close>

text \<open>
  \<open>parseInt(str)\<close> with no radix: leading white space is skipped, a sign is read, a
  \<open>0x\<close> prefix selects base 16, and the longest prefix of digits is the value. No digit at
  all gives \<open>NaN\<close>, which is \<open>None\<close> here. Strings are over code units below 256.
  The value is the exact integer, which is the Number that JavaScript returns as long as it
  is below \<open>2 ^ 53\<close>.
\<close>

definition isWhiteSpace :: "char \<Rightarrow> bool" where
  "isWhiteSpace c = ((of_char c :: nat) \<in> {9, 10, 11, 12, 13, 32, 160})"

definition digitValue :: "char \<Rightarrow> nat option" where
  "digitValue c =
     (let n = (of_char c :: nat) in
      if 48 \<le> n \<and> n \<le> 57 then Some (n - 48)
      else if 97 \<le> n \<and> n \<le> 122 then Some (n - 87)
      else if 65 \<le> n \<and> n \<le> 90 then Some (n - 55)
      else None)"

definition isRadixDigit :: "nat \<Rightarrow> char \<Rightarrow> bool" where
  "isRadixDigit R c = (case digitValue c of None \<Rightarrow> False | Some d \<Rightarrow> d < R)"

definition mathInt :: "nat \<Rightarrow> string \<Rightarrow> nat" where
  "mathInt R Z = foldl (\<lambda>acc c. acc * R + (case digitValue c of None \<Rightarrow> 0 | Some d \<Rightarrow> d)) 0 Z"

definition parseInt :: "string \<Rightarrow> int option" where
  "parseInt str =
     (let S = dropWhile isWhiteSpace str;
          sign = (if S \<noteq> [] \<and> hd S = CHR ''-'' then - 1 else 1 :: int);
          S1 = (if S \<noteq> [] \<and> (hd S = CHR ''+'' \<or> hd S = CHR ''-'') then tl S else S);
          hex = (take 2 S1 = ''0x'' \<or> take 2 S1 = ''0X'');
          R = (if hex then 16 else 10);
          S2 = (if hex then drop 2 S1 else S1);
          Z = takeWhile (isRadixDigit R) S2
      in if Z = [] then None else Some (sign * int (mathInt R Z)))"

section \<open>The in-memory store\<close>

record game =
  id_game :: int
  title :: jsval
  platform :: jsval
  releaseYear :: jsval
  imageUrl :: jsval

record store =
  games :: "game list"
  currentId :: int

text \<open>\<open>let games = []; let currentId = 1;\<close>\<close>

definition init_store :: store where
  "init_store = \<lparr>games = [], currentId = 1\<rparr>"

text \<open>
  The two error bodies: \<open>ValidationError\<close> is the message of the 400 answer (title and
  platform are required), \<open>NotFoundError\<close> the message of the 404 answers (game not found).
\<close>

datatype error = ValidationError | NotFoundError

datatype payload =
    ErrorJson error
  | GameJson game
  | GamesJson "game list"
  | UndefinedJson

datatype response = Response (status: nat) (json: payload)

subsection \<open>Array helpers\<close>

text \<open>\<open>Array.prototype.findIndex\<close>; \<open>None\<close> stands for \<open>-1\<close>.\<close>

fun findIndex :: "('a \<Rightarrow> bool) \<Rightarrow> 'a list \<Rightarrow> nat option" where
  "findIndex P [] = None"
| "findIndex P (x # xs) = (if P x then Some 0 else map_option Suc (findIndex P xs))"

text \<open>
  \<open>xs.splice(i, 1)\<close>: the removed elements (at most one) and the array that is left.
\<close>

definition splice1 :: "nat \<Rightarrow> 'a list \<Rightarrow> 'a list \<times> 'a list" where
  "splice1 i xs = (take 1 (drop i xs), take i xs @ drop (Suc i) xs)"

text \<open>
  \<open>Array.prototype.find\<close> returns a reference to the first matching object, and the
  handler assigns to its fields: the element at that position of the array changes.
\<close>

fun assign_found :: "('a \<Rightarrow> bool) \<Rightarrow> ('a \<Rightarrow> 'a) \<Rightarrow> 'a list \<Rightarrow> 'a list" where
  "assign_found P f [] = []"
| "assign_found P f (x # xs) = (if P x then f x # xs else x # assign_found P f xs)"

text \<open>The test \<open>g.id === parseInt(req.params.id)\<close>; \<open>NaN\<close> equals nothing.\<close>

definition id_matches :: "string \<Rightarrow> game \<Rightarrow> bool" where
  "id_matches p g = (parseInt p = Some (id_game g))"

subsection \<open>The handlers\<close>

text \<open>
  \<open>app.post("/games")\<close>: \<open>newGame\<close> is the object literal, with \<open>currentId++\<close>
  giving the counter's value before the increment.
\<close>

definition newGame :: "body \<Rightarrow> int \<Rightarrow> game" where
  "newGame b i =
     \<lparr>id_game = i,
      title = body_prop b ''title'',
      platform = body_prop b ''platform'',
      releaseYear = js_or (body_prop b ''releaseYear'') JNull,
      imageUrl = js_or (body_prop b ''imageUrl'') JNull\<rparr>"

definition post_games :: "body \<Rightarrow> store \<Rightarrow> response \<times> store" where
  "post_games b s =
     (if \<not> truthy (body_prop b ''title'') \<or> \<not> truthy (body_prop b ''platform'')
      then (Response 400 (ErrorJson ValidationError), s)
      else (Response 201 (GameJson (newGame b (currentId s))),
            s\<lparr>games := games s @ [newGame b (currentId s)], currentId := currentId s + 1\<rparr>))"

text \<open>\<open>app.get("/games")\<close>\<close>

definition get_games :: "store \<Rightarrow> response \<times> store" where
  "get_games s = (Response 200 (GamesJson (games s)), s)"

text \<open>\<open>app.get("/games/:id")\<close>\<close>

definition get_games_id :: "string \<Rightarrow> store \<Rightarrow> response \<times> store" where
  "get_games_id p s =
     (case find (id_matches p) (games s) of
        None \<Rightarrow> (Response 404 (ErrorJson NotFoundError), s)
      | Some g \<Rightarrow> (Response 200 (GameJson g), s))"

text \<open>\<open>app.put("/games/:id")\<close>: the four conditional assignments, then the handler.\<close>

definition assign_fields :: "body \<Rightarrow> game \<Rightarrow> game" where
  "assign_fields b g =
     (let title_v = body_prop b ''title'';
          platform_v = body_prop b ''platform'';
          releaseYear_v = body_prop b ''releaseYear'';
          imageUrl_v = body_prop b ''imageUrl'';
          g1 = (if truthy title_v then g\<lparr>title := title_v\<rparr> else g);
          g2 = (if truthy platform_v then g1\<lparr>platform := platform_v\<rparr> else g1);
          g3 = (if truthy releaseYear_v then g2\<lparr>releaseYear := releaseYear_v\<rparr> else g2);
          g4 = (if truthy imageUrl_v then g3\<lparr>imageUrl := imageUrl_v\<rparr> else g3)
      in g4)"

definition put_games_id :: "string \<Rightarrow> body \<Rightarrow> store \<Rightarrow> response \<times> store" where
  "put_games_id p b s =
     (case find (id_matches p) (games s) of
        None \<Rightarrow> (Response 404 (ErrorJson NotFoundError), s)
      | Some g \<Rightarrow>
          (Response 200 (GameJson (assign_fields b g)),
           s\<lparr>games := assign_found (id_matches p) (assign_fields b) (games s)\<rparr>))"

text \<open>\<open>app.delete("/games/:id")\<close>\<close>

definition delete_games_id :: "string \<Rightarrow> store \<Rightarrow> response \<times> store" where
  "delete_games_id p s =
     (case findIndex (id_matches p) (games s) of
        None \<Rightarrow> (Response 404 (ErrorJson NotFoundError), s)
      | Some index \<Rightarrow>
          (let (deletedGame, rest) = splice1 index (games s)
           in (Response 200 (case deletedGame of [] \<Rightarrow> UndefinedJson | g # _ \<Rightarrow> GameJson g),
               s\<lparr>games := rest\<rparr>)))"

subsection \<open>Sequences of requests\<close>

datatype request =
    PostGames body
  | GetGames
  | GetGamesId string
  | PutGamesId string body
  | DeleteGamesId string

fun handle :: "request \<Rightarrow> store \<Rightarrow> response \<times> store" where
  "handle (PostGames b) s = post_games b s"
| "handle GetGames s = get_games s"
| "handle (GetGamesId p) s = get_games_id p s"
| "handle (PutGamesId p b) s = put_games_id p b s"
| "handle (DeleteGamesId p) s = delete_games_id p s"

text \<open>
  Requests are served one after the other, each to completion; \<open>exec\<close> gives every
  request with its response, and the store at the end. The routes \<open>/banners\<close>,
  \<open>/api-docs\<close> and \<open>/images\<close> neither read nor write the store and are left out.
\<close>

fun exec :: "request list \<Rightarrow> store \<Rightarrow> (request \<times> response) list \<times> store" where
  "exec [] s = ([], s)"
| "exec (r # rs) s =
     (let (a, s1) = handle r s;
          (tr, s2) = exec rs s1
      in ((r, a) # tr, s2))"

definition final :: "request list \<Rightarrow> store" where
  "final rs = snd (exec rs init_store)"

subsection \<open>What a run created and deleted\<close>

text \<open>The record that a create request stored, read off its 201 answer.\<close>

fun created_by :: "request \<times> response \<Rightarrow> game list" where
  "created_by (PostGames b, Response st (GameJson g)) = (if st = 201 then [g] else [])"
| "created_by (r, a) = []"

definition created :: "request list \<Rightarrow> store \<Rightarrow> game list" where
  "created rs s = concat (map created_by (fst (exec rs s)))"

fun create_ok :: "request \<times> response \<Rightarrow> bool" where
  "create_ok (PostGames b, a) = (status a = 201)"
| "create_ok (r, a) = False"

fun delete_ok :: "request \<times> response \<Rightarrow> bool" where
  "delete_ok (DeleteGamesId p, a) = (status a = 200)"
| "delete_ok (r, a) = False"

subsection \<open>Store invariants\<close>

text \<open>Stored identifiers increase along the array and are below the counter.\<close>

definition ids_fresh :: "store \<Rightarrow> bool" where
  "ids_fresh s =
     (sorted_wrt (<) (map id_game (games s)) \<and> list_all (\<lambda>i. i < currentId s) (map id_game (games s)))"

text \<open>Every stored title and platform is truthy.\<close>

definition fields_nonempty :: "store \<Rightarrow> bool" where
  "fields_nonempty s = list_all (\<lambda>g. truthy (title g) \<and> truthy (platform g)) (games s)"

subsection \<open>The listening port\<close>

text \<open>
  The first listing of the file has \<open>const port = 3000\<close>; the second reads the
  environment, whose values are strings: \<open>const PORT = process.env.PORT || 3000\<close>.
\<close>

definition port :: int where
  "port = 3000"

definition PORT :: "(string \<rightharpoonup> string) \<Rightarrow> jsval" where
  "PORT env = js_or (case env ''PORT'' of None \<Rightarrow> JUndefined | Some v \<Rightarrow> JStr v) (JNum 3000)"

subsection \<open>Identifiers in the path\<close>

text \<open>
  The decimal numeral of a natural number, which is how a client writes an identifier into
  the path \<open>/games/:id\<close>, and the characters such a numeral is made of.
\<close>

fun decimal :: "nat \<Rightarrow> string" where
  "decimal n =
     (if n < 10 then [''0123456789'' ! n] else decimal (n div 10) @ [''0123456789'' ! (n mod 10)])"

declare decimal.simps [simp del]

definition plain_digit :: "char \<Rightarrow> bool" where
  "plain_digit c = (isRadixDigit 10 c \<and> \<not> isWhiteSpace c \<and> c \<noteq> CHR ''+'' \<and> c \<noteq> CHR ''-''
     \<and> c \<noteq> CHR ''x'' \<and> c \<noteq> CHR ''X'')"

subsection \<open>The bodies of the specification's example scenario\<close>

definition halo :: body where
  "halo = [''title'' \<mapsto> JStr ''Halo'', ''platform'' \<mapsto> JStr ''Xbox'']"

definition mario :: body where
  "mario = [''title'' \<mapsto> JStr ''Mario'', ''platform'' \<mapsto> JStr ''Switch'']"

section \<open>Searching the array\<close>

lemma findIndex_None: "(findIndex P xs = None) = (\<forall>x\<in>set xs. \<not> P x)"
  by (induction xs) auto

lemma findIndex_split:
  "findIndex P xs = Some i \<Longrightarrow>
   \<exists>ys g zs. xs = ys @ g # zs \<and> length ys = i \<and> P g \<and> (\<forall>y\<in>set ys. \<not> P y)"
proof (induction xs arbitrary: i)
  case Nil
  then show ?case by simp
next
  case (Cons x xs)
  show ?case
  proof (cases "P x")
    case True
    with Cons.prems have "i = 0" by simp
    with True have "x # xs = [] @ x # xs \<and> length ([]::'a list) = i \<and> P x \<and> (\<forall>y\<in>set []. \<not> P y)"
      by simp
    then show ?thesis by blast
  next
    case False
    with Cons.prems obtain j where j: "findIndex P xs = Some j" "i = Suc j"
      by auto
    from Cons.IH [OF j(1)] obtain ys g zs
      where "xs = ys @ g # zs" "length ys = j" "P g" "\<forall>y\<in>set ys. \<not> P y"
      by blast
    with False j(2) have "x # xs = (x # ys) @ g # zs \<and> length (x # ys) = i \<and> P g
        \<and> (\<forall>y\<in>set (x # ys). \<not> P y)"
      by simp
    then show ?thesis by blast
  qed
qed

lemma find_split:
  "find P xs = Some g \<Longrightarrow> \<exists>ys zs. xs = ys @ g # zs \<and> P g \<and> (\<forall>y\<in>set ys. \<not> P y)"
proof (induction xs)
  case Nil
  then show ?case by simp
next
  case (Cons x xs)
  show ?case
  proof (cases "P x")
    case True
    with Cons.prems have "x = g" by simp
    with True have "x # xs = [] @ g # xs \<and> P g \<and> (\<forall>y\<in>set []. \<not> P y)" by simp
    then show ?thesis by blast
  next
    case False
    with Cons.prems have "find P xs = Some g" by simp
    from Cons.IH [OF this] obtain ys zs
      where "xs = ys @ g # zs" "P g" "\<forall>y\<in>set ys. \<not> P y" by blast
    with False have "x # xs = (x # ys) @ g # zs \<and> P g \<and> (\<forall>y\<in>set (x # ys). \<not> P y)"
      by simp
    then show ?thesis by blast
  qed
qed

lemma find_first: "\<forall>y\<in>set ys. \<not> P y \<Longrightarrow> P g \<Longrightarrow> find P (ys @ g # zs) = Some g"
  by (induction ys) auto

lemma findIndex_first:
  "\<forall>y\<in>set ys. \<not> P y \<Longrightarrow> P g \<Longrightarrow> findIndex P (ys @ g # zs) = Some (length ys)"
  by (induction ys) auto

lemma assign_found_first:
  "\<forall>y\<in>set ys. \<not> P y \<Longrightarrow> P g \<Longrightarrow> assign_found P f (ys @ g # zs) = ys @ f g # zs"
  by (induction ys) auto

lemma assign_found_none: "\<forall>y\<in>set ys. \<not> P y \<Longrightarrow> assign_found P f ys = ys"
  by (induction ys) auto

lemma splice1_at: "splice1 (length ys) (ys @ g # zs) = ([g], ys @ zs)"
  by (simp add: splice1_def)

lemma id_game_assign_fields: "id_game (assign_fields b g) = id_game g"
  by (simp add: assign_fields_def Let_def)

lemma id_matches_assign_fields: "id_matches p (assign_fields b g) = id_matches p g"
  by (simp add: id_matches_def id_game_assign_fields)

section \<open>parseInt reads a decimal numeral back\<close>

lemma digit_char:
  assumes "d < 10"
  shows "digitValue (''0123456789'' ! d) = Some d \<and> \<not> isWhiteSpace (''0123456789'' ! d)
       \<and> ''0123456789'' ! d \<noteq> CHR ''+'' \<and> ''0123456789'' ! d \<noteq> CHR ''-''
       \<and> ''0123456789'' ! d \<noteq> CHR ''x'' \<and> ''0123456789'' ! d \<noteq> CHR ''X''"
proof -
  from assms have "d = 0 \<or> d = 1 \<or> d = 2 \<or> d = 3 \<or> d = 4 \<or> d = 5 \<or> d = 6 \<or> d = 7 \<or> d = 8 \<or> d = 9"
    by arith
  then show ?thesis
    by (elim disjE) (simp_all add: digitValue_def isWhiteSpace_def)
qed


lemma plain_digit_char: "(d::nat) < 10 \<Longrightarrow> plain_digit (''0123456789'' ! d)"
  using digit_char [of d] by (simp add: plain_digit_def isRadixDigit_def)

lemma decimal_plain: "decimal n \<noteq> [] \<and> (\<forall>c\<in>set (decimal n). plain_digit c)"
proof (induction n rule: decimal.induct)
  case (1 n)
  show ?case
  proof (cases "n < 10")
    case True
    then show ?thesis by (subst decimal.simps, subst (2) decimal.simps) (simp add: plain_digit_char)
  next
    case False
    have "n mod 10 < 10" by simp
    from plain_digit_char [OF this] 1 [OF False] False show ?thesis
      by (subst decimal.simps, subst (2) decimal.simps) simp
  qed
qed

lemma mathInt_snoc:
  "mathInt R (xs @ [c]) = mathInt R xs * R + (case digitValue c of None \<Rightarrow> 0 | Some d \<Rightarrow> d)"
  by (simp add: mathInt_def)

lemma mathInt_decimal: "mathInt 10 (decimal n) = n"
proof (induction n rule: decimal.induct)
  case (1 n)
  show ?case
  proof (cases "n < 10")
    case True
    with digit_char [of n] show ?thesis by (subst decimal.simps) (simp add: mathInt_def)
  next
    case False
    have "n mod 10 < 10" by simp
    from digit_char [OF this] 1 [OF False] False show ?thesis
      by (subst decimal.simps) (simp add: mathInt_snoc)
  qed
qed

lemma parseInt_plain:
  assumes "Z \<noteq> []" and "\<forall>c\<in>set Z. plain_digit c"
  shows "parseInt Z = Some (int (mathInt 10 Z))"
proof -
  from assms obtain c cs where Z: "Z = c # cs" by (cases Z) auto
  with assms(2) have c: "plain_digit c" by simp
  have ws: "dropWhile isWhiteSpace Z = Z"
    using Z c by (simp add: plain_digit_def)
  have nohex: "take 2 Z \<noteq> ''0x'' \<and> take 2 Z \<noteq> ''0X''"
  proof (cases cs)
    case Nil
    with Z show ?thesis by simp
  next
    case (Cons e es)
    with Z assms(2) have "plain_digit e" by simp
    with Z Cons show ?thesis by (auto simp: plain_digit_def)
  qed
  have all: "takeWhile (isRadixDigit 10) Z = Z"
    using assms(2) by (simp add: takeWhile_eq_all_conv plain_digit_def)
  have sign: "hd Z \<noteq> CHR ''-'' \<and> hd Z \<noteq> CHR ''+''"
    using Z c by (simp add: plain_digit_def)
  have takeWhile_all: "\<And>P xs. \<forall>x\<in>set xs. P x \<Longrightarrow> takeWhile P xs = xs"
    by (simp add: takeWhile_eq_all_conv)
  from ws sign nohex all assms(1) show ?thesis
    by (simp add: parseInt_def Let_def takeWhile_all)
qed

lemma parseInt_decimal: "parseInt (decimal n) = Some (int n)"
  using parseInt_plain [of "decimal n"] decimal_plain [of n] by (simp add: mathInt_decimal)

section \<open>The handlers, case by case\<close>

text \<open>What each handler does, by the outcome of its search.\<close>

lemma post_games_truthy:
  "truthy (body_prop b ''title'') \<Longrightarrow> truthy (body_prop b ''platform'') \<Longrightarrow>
   post_games b s =
     (Response 201 (GameJson (newGame b (currentId s))),
      s\<lparr>games := games s @ [newGame b (currentId s)], currentId := currentId s + 1\<rparr>)"
  by (simp add: post_games_def)

lemma get_games_id_none:
  "\<forall>x\<in>set (games s). \<not> id_matches p x \<Longrightarrow>
   get_games_id p s = (Response 404 (ErrorJson NotFoundError), s)"
proof -
  assume "\<forall>x\<in>set (games s). \<not> id_matches p x"
  then have "find (id_matches p) (games s) = None" by (simp add: find_None_iff)
  then show ?thesis by (simp add: get_games_id_def)
qed

lemma get_games_id_found:
  "games s = ys @ g # zs \<Longrightarrow> \<forall>y\<in>set ys. \<not> id_matches p y \<Longrightarrow> id_matches p g \<Longrightarrow>
   get_games_id p s = (Response 200 (GameJson g), s)"
  by (simp add: get_games_id_def find_first)

lemma put_games_id_none:
  "\<forall>x\<in>set (games s). \<not> id_matches p x \<Longrightarrow>
   put_games_id p b s = (Response 404 (ErrorJson NotFoundError), s)"
proof -
  assume "\<forall>x\<in>set (games s). \<not> id_matches p x"
  then have "find (id_matches p) (games s) = None" by (simp add: find_None_iff)
  then show ?thesis by (simp add: put_games_id_def)
qed

lemma put_games_id_found:
  "games s = ys @ g # zs \<Longrightarrow> \<forall>y\<in>set ys. \<not> id_matches p y \<Longrightarrow> id_matches p g \<Longrightarrow>
   put_games_id p b s =
     (Response 200 (GameJson (assign_fields b g)), s\<lparr>games := ys @ assign_fields b g # zs\<rparr>)"
  by (simp add: put_games_id_def find_first assign_found_first)

lemma delete_games_id_none:
  "\<forall>x\<in>set (games s). \<not> id_matches p x \<Longrightarrow>
   delete_games_id p s = (Response 404 (ErrorJson NotFoundError), s)"
proof -
  assume "\<forall>x\<in>set (games s). \<not> id_matches p x"
  then have "findIndex (id_matches p) (games s) = None" by (simp add: findIndex_None)
  then show ?thesis by (simp add: delete_games_id_def)
qed

lemma delete_games_id_found:
  "games s = ys @ g # zs \<Longrightarrow> \<forall>y\<in>set ys. \<not> id_matches p y \<Longrightarrow> id_matches p g \<Longrightarrow>
   delete_games_id p s = (Response 200 (GameJson g), s\<lparr>games := ys @ zs\<rparr>)"
  by (simp add: delete_games_id_def findIndex_first splice1_at)

lemma games_split:
  "(\<forall>x\<in>set xs. \<not> P x) \<or> (\<exists>ys g zs. xs = ys @ g # zs \<and> P g \<and> (\<forall>y\<in>set ys. \<not> P y))"
proof (cases "find P xs")
  case None
  then show ?thesis by (simp add: find_None_iff)
next
  case (Some g)
  from find_split [OF this] show ?thesis by blast
qed

text \<open>One request: nothing changes, or a record is appended, rewritten or removed.\<close>

lemma handle_step:
  assumes "handle r s = (a, s')"
  shows "(s' = s \<and> created_by (r, a) = [] \<and> \<not> create_ok (r, a) \<and> \<not> delete_ok (r, a))
  \<or> (\<exists>b. r = PostGames b \<and> truthy (body_prop b ''title'') \<and> truthy (body_prop b ''platform'')
        \<and> a = Response 201 (GameJson (newGame b (currentId s)))
        \<and> s' = s\<lparr>games := games s @ [newGame b (currentId s)], currentId := currentId s + 1\<rparr>)
  \<or> (\<exists>p b ys g zs. r = PutGamesId p b \<and> games s = ys @ g # zs
        \<and> a = Response 200 (GameJson (assign_fields b g))
        \<and> s' = s\<lparr>games := ys @ assign_fields b g # zs\<rparr>)
  \<or> (\<exists>p ys g zs. r = DeleteGamesId p \<and> games s = ys @ g # zs
        \<and> a = Response 200 (GameJson g)
        \<and> s' = s\<lparr>games := ys @ zs\<rparr>)"
proof (cases r)
  case (PostGames b)
  show ?thesis
  proof (cases "truthy (body_prop b ''title'') \<and> truthy (body_prop b ''platform'')")
    case True
    then show ?thesis using PostGames assms by (auto simp: post_games_truthy)
  next
    case False
    then show ?thesis using PostGames assms by (auto simp: post_games_def)
  qed
next
  case GetGames
  then show ?thesis using assms by (auto simp: get_games_def)
next
  case (GetGamesId p)
  then show ?thesis using assms by (auto simp: get_games_id_def split: option.splits)
next
  case (PutGamesId p b)
  from games_split [of "games s" "id_matches p"] show ?thesis
  proof
    assume "\<forall>x\<in>set (games s). \<not> id_matches p x"
    then show ?thesis using PutGamesId assms by (auto simp: put_games_id_none)
  next
    assume "\<exists>ys g zs. games s = ys @ g # zs \<and> id_matches p g \<and> (\<forall>y\<in>set ys. \<not> id_matches p y)"
    then obtain ys g zs where "games s = ys @ g # zs" "id_matches p g" "\<forall>y\<in>set ys. \<not> id_matches p y"
      by blast
    from put_games_id_found [OF this(1) this(3) this(2), of b] this(1) PutGamesId assms
    show ?thesis by auto
  qed
next
  case (DeleteGamesId p)
  from games_split [of "games s" "id_matches p"] show ?thesis
  proof
    assume "\<forall>x\<in>set (games s). \<not> id_matches p x"
    then show ?thesis using DeleteGamesId assms by (auto simp: delete_games_id_none)
  next
    assume "\<exists>ys g zs. games s = ys @ g # zs \<and> id_matches p g \<and> (\<forall>y\<in>set ys. \<not> id_matches p y)"
    then obtain ys g zs where "games s = ys @ g # zs" "id_matches p g" "\<forall>y\<in>set ys. \<not> id_matches p y"
      by blast
    from delete_games_id_found [OF this(1) this(3) this(2)] this(1) DeleteGamesId assms
    show ?thesis by auto
  qed
qed



section \<open>Runs\<close>

lemma exec_Cons:
  "exec (r # rs) s =
     ((r, fst (handle r s)) # fst (exec rs (snd (handle r s))), snd (exec rs (snd (handle r s))))"
  by (simp add: split_beta)

lemma created_Nil: "created [] s = []"
  by (simp add: created_def)

lemma created_Cons:
  "created (r # rs) s = created_by (r, fst (handle r s)) @ created rs (snd (handle r s))"
  by (simp add: created_def split_beta)

lemma handle_created:
  assumes "handle r s = (a, s')"
  shows "currentId s \<le> currentId s'
       \<and> (created_by (r, a) = []
          \<or> (\<exists>g. created_by (r, a) = [g] \<and> id_game g = currentId s \<and> currentId s < currentId s'))"
  using handle_step [OF assms] by (auto simp: newGame_def)

lemma ids_fresh_handle:
  assumes "ids_fresh s"
  shows "ids_fresh (snd (handle r s))"
proof -
  obtain a s' where h: "handle r s = (a, s')" by (cases "handle r s")
  from handle_step [OF h] assms have "ids_fresh s'"
    by (fastforce simp: ids_fresh_def sorted_wrt_append list_all_iff id_game_assign_fields
        newGame_def)
  with h show ?thesis by simp
qed

lemma fields_nonempty_assign_fields:
  "truthy (title g) \<and> truthy (platform g) \<Longrightarrow>
   truthy (title (assign_fields b g)) \<and> truthy (platform (assign_fields b g))"
  by (simp add: assign_fields_def Let_def)

lemma fields_nonempty_handle:
  assumes "fields_nonempty s"
  shows "fields_nonempty (snd (handle r s))"
proof -
  obtain a s' where h: "handle r s = (a, s')" by (cases "handle r s")
  from handle_step [OF h] assms have "fields_nonempty s'"
    by (auto simp: fields_nonempty_def list_all_iff newGame_def fields_nonempty_assign_fields)
  with h show ?thesis by simp
qed

lemma ids_fresh_exec: "ids_fresh s \<Longrightarrow> ids_fresh (snd (exec rs s))"
proof (induction rs arbitrary: s)
  case Nil
  then show ?case by simp
next
  case (Cons r rs)
  from Cons.IH [OF ids_fresh_handle [OF Cons.prems]] show ?case
    by (simp add: exec_Cons del: exec.simps)
qed

lemma fields_nonempty_exec: "fields_nonempty s \<Longrightarrow> fields_nonempty (snd (exec rs s))"
proof (induction rs arbitrary: s)
  case Nil
  then show ?case by simp
next
  case (Cons r rs)
  from Cons.IH [OF fields_nonempty_handle [OF Cons.prems]] show ?case
    by (simp add: exec_Cons del: exec.simps)
qed

lemma currentId_exec_mono: "currentId s \<le> currentId (snd (exec rs s))"
proof (induction rs arbitrary: s)
  case Nil
  then show ?case by simp
next
  case (Cons r rs)
  obtain a s' where h: "handle r s = (a, s')" by (cases "handle r s")
  from handle_created [OF h] Cons.IH [of s'] h show ?case
    by (simp add: exec_Cons del: exec.simps)
qed

lemma created_bounds:
  "\<forall>g\<in>set (created rs s). currentId s \<le> id_game g \<and> id_game g < currentId (snd (exec rs s))"
proof (induction rs arbitrary: s)
  case Nil
  then show ?case by (simp add: created_Nil)
next
  case (Cons r rs)
  obtain a s' where h: "handle r s = (a, s')" by (cases "handle r s")
  have mono: "currentId s' \<le> currentId (snd (exec rs s'))" by (rule currentId_exec_mono)
  from handle_created [OF h] Cons.IH [of s'] h mono show ?case
    by (auto simp: created_Cons exec_Cons simp del: exec.simps)
qed

lemma created_sorted: "sorted_wrt (<) (map id_game (created rs s))"
proof (induction rs arbitrary: s)
  case Nil
  then show ?case by (simp add: created_Nil)
next
  case (Cons r rs)
  obtain a s' where h: "handle r s = (a, s')" by (cases "handle r s")
  from handle_created [OF h] created_bounds [of rs s'] Cons.IH [of s'] h show ?case
    by (fastforce simp: created_Cons)
qed

lemma length_exec:
  "length (games (snd (exec rs s))) + length (filter delete_ok (fst (exec rs s)))
   = length (games s) + length (filter create_ok (fst (exec rs s)))"
proof (induction rs arbitrary: s)
  case Nil
  then show ?case by simp
next
  case (Cons r rs)
  obtain a s' where h: "handle r s = (a, s')" by (cases "handle r s")
  from handle_step [OF h] have
    "length (games s') + (if delete_ok (r, a) then 1 else 0)
     = length (games s) + (if create_ok (r, a) then 1 else 0)"
    by auto
  with Cons.IH [of s'] h show ?case
    by (auto simp: exec_Cons simp del: exec.simps split: if_splits)
qed


lemma subseq_handle:
  assumes "handle r s = (a, s')"
  shows "subseq (map id_game (games s')) (map id_game (games s) @ map id_game (created_by (r, a)))"
  using handle_step [OF assms]
  by (auto simp: id_game_assign_fields intro!: list_emb_append_mono)

lemma subseq_exec:
  "subseq (map id_game (games (snd (exec rs s))))
          (map id_game (games s) @ map id_game (created rs s))"
proof (induction rs arbitrary: s)
  case Nil
  then show ?case by (simp add: created_Nil)
next
  case (Cons r rs)
  obtain a s' where h: "handle r s = (a, s')" by (cases "handle r s")
  have "subseq (map id_game (games s') @ map id_game (created rs s'))
          ((map id_game (games s) @ map id_game (created_by (r, a))) @ map id_game (created rs s'))"
    using subseq_handle [OF h] by (simp only: subseq_append)
  with Cons.IH [of s'] have
    "subseq (map id_game (games (snd (exec rs s'))))
       ((map id_game (games s) @ map id_game (created_by (r, a))) @ map id_game (created rs s'))"
    by (rule subseq_order.trans)
  with h show ?case
    by (simp add: created_Cons exec_Cons del: exec.simps)
qed

lemma currentId_final_pos: "1 \<le> currentId (final rs)"
  using currentId_exec_mono [of init_store rs] by (simp add: final_def init_store_def)

lemma ids_fresh_init: "ids_fresh init_store"
  by (simp add: ids_fresh_def init_store_def)

lemma ids_fresh_final: "ids_fresh (final rs)"
  unfolding final_def by (rule ids_fresh_exec [OF ids_fresh_init])

text \<open>With increasing identifiers, only the first match matches.\<close>

lemma ids_fresh_unique:
  assumes "ids_fresh s" "games s = ys @ g # zs" "id_matches p g"
  shows "(\<forall>y\<in>set ys. \<not> id_matches p y) \<and> (\<forall>z\<in>set zs. \<not> id_matches p z)"
  using assms by (fastforce simp: ids_fresh_def sorted_wrt_append id_matches_def)

lemma ids_fresh_member:
  assumes "ids_fresh s" "g \<in> set (games s)" "id_matches p g"
  shows "\<exists>ys zs. games s = ys @ g # zs \<and> (\<forall>y\<in>set ys. \<not> id_matches p y)
           \<and> (\<forall>z\<in>set zs. \<not> id_matches p z) \<and> g \<notin> set ys \<and> g \<notin> set zs"
proof -
  from assms(2) obtain ys zs where split: "games s = ys @ g # zs"
    by (auto simp: in_set_conv_decomp)
  from ids_fresh_unique [OF assms(1) split assms(3)] assms(3) split show ?thesis
    by blast
qed


lemmas eval_defs = halo_def mario_def init_store_def final_def created_def post_games_def newGame_def
  body_prop_def js_or_def get_games_def get_games_id_def put_games_id_def delete_games_id_def
  assign_fields_def id_matches_def splice1_def parseInt_def isWhiteSpace_def isRadixDigit_def
  digitValue_def mathInt_def Let_def

lemma subseq_drop_middle: "subseq (ys @ zs) (ys @ g # zs)"
proof -
  have "subseq zs (g # zs)" by (rule list_emb_Cons) simp
  then show ?thesis by (simp only: subseq_append')
qed

lemma subseq_set: "subseq xs ys \<Longrightarrow> set xs \<subseteq> set ys"
  by (induction rule: list_emb.induct) auto

section \<open>Create with a missing field\<close>

lemma post_games_falsy:
  "\<not> truthy (body_prop b ''title'') \<or> \<not> truthy (body_prop b ''platform'') \<Longrightarrow>
   post_games b s = (Response 400 (ErrorJson ValidationError), s)"
  by (auto simp: post_games_def Let_def)

text \<open>
  C4. When the title or the platform of a create request is missing (\<open>undefined\<close>) or
  the empty string, and more generally whenever one of them is falsy, the answer is the
  validation error with status 400 and the store is the same afterwards: the collection,
  hence the listing and its length, and the identifier counter.
\<close>

theorem create_invalid_rejected:
  assumes "\<not> truthy (body_prop b ''title'') \<or> \<not> truthy (body_prop b ''platform'')"
  shows "fst (post_games b s) = Response 400 (ErrorJson ValidationError)
       \<and> snd (post_games b s) = s
       \<and> get_games (snd (post_games b s)) = get_games s
       \<and> length (games (snd (post_games b s))) = length (games s)
       \<and> currentId (snd (post_games b s)) = currentId s"
  using post_games_falsy [OF assms] by simp

theorem create_invalid_rejected_witness:
  "\<not> truthy (body_prop [''title'' \<mapsto> JStr ''Halo''] ''platform'')
   \<and> fst (post_games [''title'' \<mapsto> JStr ''Halo''] init_store)
       = Response 400 (ErrorJson ValidationError)
   \<and> snd (post_games [''title'' \<mapsto> JStr ''Halo''] init_store) = init_store"
  using create_invalid_rejected [of "[''title'' \<mapsto> JStr ''Halo'']" init_store]
  by (simp add: body_prop_def)

section \<open>Identifiers\<close>

text \<open>
  C1. In every run from the empty store with the counter at 1, the identifiers that the
  create requests assign are pairwise different, in fact strictly increasing in the order of
  creation, whatever deletions happen in between. Every stored record carries an identifier
  that a create of the run assigned, and every assigned identifier is below the counter, so
  the next create cannot assign it again. A delete leaves the counter alone and leaves the
  remaining records as they were, in their order.
\<close>

theorem ids_unique_never_reused:
  "distinct (map id_game (created rs init_store))
   \<and> sorted_wrt (<) (map id_game (created rs init_store))
   \<and> set (map id_game (games (final rs))) \<subseteq> set (map id_game (created rs init_store))
   \<and> list_all (\<lambda>g. id_game g < currentId (final rs)) (created rs init_store)
   \<and> currentId (snd (delete_games_id p s)) = currentId s
   \<and> subseq (games (snd (delete_games_id p s))) (games s)"
proof -
  have sorted: "sorted_wrt (<) (map id_game (created rs init_store))"
    by (rule created_sorted)
  then have dist: "distinct (map id_game (created rs init_store))"
    by (simp add: strict_sorted_iff)
  have "subseq (map id_game (games (final rs)))
          (map id_game (games init_store) @ map id_game (created rs init_store))"
    unfolding final_def by (rule subseq_exec)
  then have stored: "set (map id_game (games (final rs))) \<subseteq> set (map id_game (created rs init_store))"
    using subseq_set by (fastforce simp: init_store_def)
  have below: "list_all (\<lambda>g. id_game g < currentId (final rs)) (created rs init_store)"
    using created_bounds [of rs init_store] by (simp add: list_all_iff final_def)
  obtain a s' where h: "handle (DeleteGamesId p) s = (a, s')"
    by (cases "handle (DeleteGamesId p) s")
  from handle_step [OF h] have "currentId s' = currentId s \<and> subseq (games s') (games s)"
    by (auto simp: subseq_drop_middle)
  with h have del: "currentId (snd (delete_games_id p s)) = currentId s
      \<and> subseq (games (snd (delete_games_id p s))) (games s)"
    by simp
  from sorted dist stored below del show ?thesis by blast
qed

theorem ids_unique_never_reused_witness:
  "map id_game (created [PostGames halo, PostGames mario, DeleteGamesId ''1'', PostGames halo] init_store)
     = [1, 2, 3]
   \<and> distinct (map id_game
        (created [PostGames halo, PostGames mario, DeleteGamesId ''1'', PostGames halo] init_store))
   \<and> map id_game (games (final [PostGames halo, PostGames mario, DeleteGamesId ''1'', PostGames halo]))
     = [2, 3]"
  using ids_unique_never_reused
    [of "[PostGames halo, PostGames mario, DeleteGamesId ''1'', PostGames halo]" "''1''" init_store]
  by (simp add: eval_defs)

section \<open>Update\<close>

text \<open>
  C2. When the store holds a record with the requested identifier, the update answers 200
  with the updated record, which replaces the matched record at its position; the other
  records and the counter stay as they are. Each of title, platform, releaseYear and imageUrl
  takes the value of the body when that value is truthy, and keeps its old value when the key
  is absent or its value is falsy, so the empty string or zero never clears a field. The
  identifier is not touched.
\<close>

theorem update_overwrites_truthy:
  assumes "find (id_matches p) (games s) = Some g"
  shows "fst (put_games_id p b s) = Response 200 (GameJson (assign_fields b g))
   \<and> (\<exists>ys zs. games s = ys @ g # zs \<and> list_all (\<lambda>y. \<not> id_matches p y) ys
        \<and> games (snd (put_games_id p b s)) = ys @ assign_fields b g # zs)
   \<and> currentId (snd (put_games_id p b s)) = currentId s
   \<and> id_game (assign_fields b g) = id_game g
   \<and> title (assign_fields b g)
       = (if truthy (body_prop b ''title'') then body_prop b ''title'' else title g)
   \<and> platform (assign_fields b g)
       = (if truthy (body_prop b ''platform'') then body_prop b ''platform'' else platform g)
   \<and> releaseYear (assign_fields b g)
       = (if truthy (body_prop b ''releaseYear'') then body_prop b ''releaseYear'' else releaseYear g)
   \<and> imageUrl (assign_fields b g)
       = (if truthy (body_prop b ''imageUrl'') then body_prop b ''imageUrl'' else imageUrl g)"
proof -
  from find_split [OF assms] obtain ys zs
    where split: "games s = ys @ g # zs" "id_matches p g" "\<forall>y\<in>set ys. \<not> id_matches p y"
    by blast
  from put_games_id_found [OF split(1) split(3) split(2), of b]
  have put: "put_games_id p b s
      = (Response 200 (GameJson (assign_fields b g)), s\<lparr>games := ys @ assign_fields b g # zs\<rparr>)" .
  have "games s = ys @ g # zs \<and> list_all (\<lambda>y. \<not> id_matches p y) ys
        \<and> games (snd (put_games_id p b s)) = ys @ assign_fields b g # zs"
    using split put by (simp add: list_all_iff)
  then have ex: "\<exists>ys zs. games s = ys @ g # zs \<and> list_all (\<lambda>y. \<not> id_matches p y) ys
        \<and> games (snd (put_games_id p b s)) = ys @ assign_fields b g # zs"
    by blast
  have fields: "id_game (assign_fields b g) = id_game g
   \<and> title (assign_fields b g)
       = (if truthy (body_prop b ''title'') then body_prop b ''title'' else title g)
   \<and> platform (assign_fields b g)
       = (if truthy (body_prop b ''platform'') then body_prop b ''platform'' else platform g)
   \<and> releaseYear (assign_fields b g)
       = (if truthy (body_prop b ''releaseYear'') then body_prop b ''releaseYear'' else releaseYear g)
   \<and> imageUrl (assign_fields b g)
       = (if truthy (body_prop b ''imageUrl'') then body_prop b ''imageUrl'' else imageUrl g)"
    by (simp add: assign_fields_def Let_def)
  from put ex fields show ?thesis by simp
qed

theorem update_overwrites_truthy_witness:
  "find (id_matches ''1'') (games (final [PostGames halo])) = Some (newGame halo 1)
   \<and> fst (put_games_id ''1''
        [''title'' \<mapsto> JStr '''', ''platform'' \<mapsto> JStr ''PC'', ''releaseYear'' \<mapsto> JNum 0]
        (final [PostGames halo]))
     = Response 200 (GameJson
         \<lparr>id_game = 1, title = JStr ''Halo'', platform = JStr ''PC'',
          releaseYear = JNull, imageUrl = JNull\<rparr>)"
proof -
  have f: "find (id_matches ''1'') (games (final [PostGames halo])) = Some (newGame halo 1)"
    by (simp add: eval_defs)
  from update_overwrites_truthy [OF f,
      of "[''title'' \<mapsto> JStr '''', ''platform'' \<mapsto> JStr ''PC'', ''releaseYear'' \<mapsto> JNum 0]"] f
  show ?thesis by (simp add: eval_defs)
qed

section \<open>Create\<close>

text \<open>
  C3. A create request whose title and platform are both truthy, as every non-empty string is,
  succeeds in every store: it answers 201 with the new record, whose identifier is the value
  of the counter and whose title and platform are those of the body, appends that record at
  the end of the collection and increments the counter. In a store reached by a run, the
  counter is above every identifier assigned or stored so far, so the new identifier is
  larger than all of them and was never used.
\<close>

theorem create_valid_succeeds:
  assumes "truthy (body_prop b ''title'')" and "truthy (body_prop b ''platform'')"
  shows "fst (post_games b s) = Response 201 (GameJson (newGame b (currentId s)))
   \<and> games (snd (post_games b s)) = games s @ [newGame b (currentId s)]
   \<and> currentId (snd (post_games b s)) = currentId s + 1
   \<and> id_game (newGame b (currentId s)) = currentId s
   \<and> title (newGame b (currentId s)) = body_prop b ''title''
   \<and> platform (newGame b (currentId s)) = body_prop b ''platform''
   \<and> list_all (\<lambda>g. id_game g < currentId (final rs)) (created rs init_store)
   \<and> list_all (\<lambda>g. id_game g < currentId (final rs)) (games (final rs))"
proof -
  have post: "fst (post_games b s) = Response 201 (GameJson (newGame b (currentId s)))
   \<and> games (snd (post_games b s)) = games s @ [newGame b (currentId s)]
   \<and> currentId (snd (post_games b s)) = currentId s + 1"
    using post_games_truthy [OF assms, of s] by simp
  have new: "id_game (newGame b (currentId s)) = currentId s
   \<and> title (newGame b (currentId s)) = body_prop b ''title''
   \<and> platform (newGame b (currentId s)) = body_prop b ''platform''"
    by (simp add: newGame_def)
  have before: "list_all (\<lambda>g. id_game g < currentId (final rs)) (created rs init_store)"
    using created_bounds [of rs init_store] by (simp add: list_all_iff final_def)
  have stored: "list_all (\<lambda>g. id_game g < currentId (final rs)) (games (final rs))"
    using ids_fresh_final [of rs] by (simp add: ids_fresh_def list_all_iff)
  from post new before stored show ?thesis by simp
qed

theorem create_valid_succeeds_witness:
  "truthy (body_prop mario ''title'') \<and> truthy (body_prop mario ''platform'')
   \<and> fst (post_games mario (final [PostGames halo]))
     = Response 201 (GameJson
         \<lparr>id_game = 2, title = JStr ''Mario'', platform = JStr ''Switch'',
          releaseYear = JNull, imageUrl = JNull\<rparr>)
   \<and> map id_game (games (snd (post_games mario (final [PostGames halo])))) = [1, 2]
   \<and> currentId (snd (post_games mario (final [PostGames halo]))) = 3"
proof -
  have t: "truthy (body_prop mario ''title'')" and p: "truthy (body_prop mario ''platform'')"
    by (simp_all add: eval_defs)
  from create_valid_succeeds [OF t p, of "final [PostGames halo]" "[PostGames halo]"] t p
  show ?thesis by (simp add: eval_defs)
qed

section \<open>Delete\<close>

lemma remove1_middle: "g \<notin> set ys \<Longrightarrow> remove1 g (ys @ g # zs) = ys @ zs"
  by (simp add: remove1_append)

text \<open>
  C5. In any store, deleting an identifier that no record has answers 404 with the not-found
  error and changes nothing. In a store reached by a run, deleting the identifier of a stored
  record answers 200 with that record and removes exactly it from the collection, leaving the
  counter; reading the same identifier right afterwards answers 404 with the not-found error.
\<close>

theorem delete_then_get_not_found:
  "(list_all (\<lambda>x. \<not> id_matches p x) (games s) \<longrightarrow>
      delete_games_id p s = (Response 404 (ErrorJson NotFoundError), s))
   \<and> (g \<in> set (games (final rs)) \<and> id_matches p g \<longrightarrow>
        fst (delete_games_id p (final rs)) = Response 200 (GameJson g)
      \<and> games (snd (delete_games_id p (final rs))) = remove1 g (games (final rs))
      \<and> g \<notin> set (games (snd (delete_games_id p (final rs))))
      \<and> currentId (snd (delete_games_id p (final rs))) = currentId (final rs)
      \<and> fst (get_games_id p (snd (delete_games_id p (final rs))))
          = Response 404 (ErrorJson NotFoundError))"
proof -
  have none: "list_all (\<lambda>x. \<not> id_matches p x) (games s) \<longrightarrow>
      delete_games_id p s = (Response 404 (ErrorJson NotFoundError), s)"
    by (simp add: list_all_iff delete_games_id_none)
  have found: "fst (delete_games_id p (final rs)) = Response 200 (GameJson g)
      \<and> games (snd (delete_games_id p (final rs))) = remove1 g (games (final rs))
      \<and> g \<notin> set (games (snd (delete_games_id p (final rs))))
      \<and> currentId (snd (delete_games_id p (final rs))) = currentId (final rs)
      \<and> fst (get_games_id p (snd (delete_games_id p (final rs))))
          = Response 404 (ErrorJson NotFoundError)"
    if mem: "g \<in> set (games (final rs))" and m: "id_matches p g"
  proof -
    from ids_fresh_member [OF ids_fresh_final mem m] obtain ys zs
      where split: "games (final rs) = ys @ g # zs"
        and ys: "\<forall>y\<in>set ys. \<not> id_matches p y" and zs: "\<forall>z\<in>set zs. \<not> id_matches p z"
        and notin: "g \<notin> set ys" "g \<notin> set zs"
      by blast
    have del: "delete_games_id p (final rs)
        = (Response 200 (GameJson g), (final rs)\<lparr>games := ys @ zs\<rparr>)"
      by (rule delete_games_id_found [OF split ys m])
    have "\<forall>x\<in>set (games ((final rs)\<lparr>games := ys @ zs\<rparr>)). \<not> id_matches p x"
      using ys zs by auto
    from get_games_id_none [OF this] del split notin show ?thesis
      by (simp add: remove1_middle)
  qed
  from none found show ?thesis by blast
qed

theorem delete_then_get_not_found_witness:
  "newGame halo 1 \<in> set (games (final [PostGames halo, PostGames mario]))
   \<and> id_matches ''1'' (newGame halo 1)
   \<and> fst (delete_games_id ''1'' (final [PostGames halo, PostGames mario]))
       = Response 200 (GameJson (newGame halo 1))
   \<and> games (snd (delete_games_id ''1'' (final [PostGames halo, PostGames mario])))
       = [newGame mario 2]
   \<and> fst (get_games_id ''1'' (snd (delete_games_id ''1'' (final [PostGames halo, PostGames mario]))))
       = Response 404 (ErrorJson NotFoundError)
   \<and> list_all (\<lambda>x. \<not> id_matches ''7'' x) (games (final [PostGames halo, PostGames mario]))
   \<and> fst (delete_games_id ''7'' (final [PostGames halo, PostGames mario]))
       = Response 404 (ErrorJson NotFoundError)"
  using delete_then_get_not_found
    [of "''1''" "final [PostGames halo, PostGames mario]" "newGame halo 1" "[PostGames halo, PostGames mario]"]
    delete_then_get_not_found
    [of "''7''" "final [PostGames halo, PostGames mario]" "newGame halo 1" "[PostGames halo, PostGames mario]"]
  by (simp add: eval_defs)

section \<open>Titles and platforms\<close>

text \<open>
  C6. The empty store has only records with a truthy title and platform, and every request
  keeps it so. Hence in every store reached by a run the title and the platform of each
  record are truthy: neither the empty string nor missing nor null.
\<close>

theorem nonempty_fields_preserved:
  "fields_nonempty init_store
   \<and> (fields_nonempty s \<longrightarrow> fields_nonempty (snd (handle r s)))
   \<and> list_all (\<lambda>g. truthy (title g) \<and> truthy (platform g)
                  \<and> title g \<noteq> JStr [] \<and> platform g \<noteq> JStr []
                  \<and> title g \<noteq> JUndefined \<and> platform g \<noteq> JUndefined
                  \<and> title g \<noteq> JNull \<and> platform g \<noteq> JNull) (games (final rs))"
proof -
  have init: "fields_nonempty init_store"
    by (simp add: fields_nonempty_def init_store_def)
  have step: "fields_nonempty s \<longrightarrow> fields_nonempty (snd (handle r s))"
    by (simp add: fields_nonempty_handle)
  have "fields_nonempty (final rs)"
    unfolding final_def by (rule fields_nonempty_exec [OF init])
  then have reach: "list_all (\<lambda>g. truthy (title g) \<and> truthy (platform g)
                  \<and> title g \<noteq> JStr [] \<and> platform g \<noteq> JStr []
                  \<and> title g \<noteq> JUndefined \<and> platform g \<noteq> JUndefined
                  \<and> title g \<noteq> JNull \<and> platform g \<noteq> JNull) (games (final rs))"
    by (auto simp: fields_nonempty_def list_all_iff)
  from init step reach show ?thesis by blast
qed

theorem nonempty_fields_preserved_witness:
  "fields_nonempty (final [PostGames halo])
   \<and> fields_nonempty
       (snd (handle (PutGamesId ''1'' [''title'' \<mapsto> JStr []]) (final [PostGames halo])))
   \<and> games (snd (handle (PutGamesId ''1'' [''title'' \<mapsto> JStr []]) (final [PostGames halo])))
       = [newGame halo 1]
   \<and> fields_nonempty
       (snd (handle (PostGames [''title'' \<mapsto> JStr []]) (final [PostGames halo])))"
proof -
  have f: "fields_nonempty (final [PostGames halo])"
    by (simp add: fields_nonempty_def eval_defs)
  from nonempty_fields_preserved
      [of "final [PostGames halo]" "PutGamesId ''1'' [''title'' \<mapsto> JStr []]" "[]"]
    nonempty_fields_preserved
      [of "final [PostGames halo]" "PostGames [''title'' \<mapsto> JStr []]" "[]"] f
  show ?thesis by (simp add: eval_defs)
qed

section \<open>Read\<close>

text \<open>
  C7. In a store reached by a run, a successful create followed at once by a read of the new
  identifier answers 200 with the very record that the create returned, and changes nothing.
  In general a read answers 200 with the stored record whose identifier matches, and 404
  with the not-found error when no record matches. The decimal numeral of the new identifier
  is a path parameter that parses to it.
\<close>

theorem get_after_create:
  "(truthy (body_prop b ''title'') \<and> truthy (body_prop b ''platform'')
      \<and> parseInt q = Some (currentId (final rs)) \<longrightarrow>
        fst (post_games b (final rs)) = Response 201 (GameJson (newGame b (currentId (final rs))))
      \<and> fst (get_games_id q (snd (post_games b (final rs))))
          = Response 200 (GameJson (newGame b (currentId (final rs))))
      \<and> snd (get_games_id q (snd (post_games b (final rs)))) = snd (post_games b (final rs)))
   \<and> (g \<in> set (games (final rs)) \<and> id_matches p g \<longrightarrow>
        get_games_id p (final rs) = (Response 200 (GameJson g), final rs))
   \<and> (list_all (\<lambda>x. \<not> id_matches p x) (games s) \<longrightarrow>
        get_games_id p s = (Response 404 (ErrorJson NotFoundError), s))
   \<and> parseInt (decimal (nat (currentId (final rs)))) = Some (currentId (final rs))"
proof -
  have numeral: "parseInt (decimal (nat (currentId (final rs)))) = Some (currentId (final rs))"
    using currentId_final_pos [of rs] by (simp add: parseInt_decimal)
  have create: "fst (post_games b (final rs)) = Response 201 (GameJson (newGame b (currentId (final rs))))
      \<and> fst (get_games_id q (snd (post_games b (final rs))))
          = Response 200 (GameJson (newGame b (currentId (final rs))))
      \<and> snd (get_games_id q (snd (post_games b (final rs)))) = snd (post_games b (final rs))"
    if t: "truthy (body_prop b ''title'')" and pl: "truthy (body_prop b ''platform'')"
      and q: "parseInt q = Some (currentId (final rs))"
  proof -
    let ?g = "newGame b (currentId (final rs))"
    let ?s' = "(final rs)\<lparr>games := games (final rs) @ [?g], currentId := currentId (final rs) + 1\<rparr>"
    have post: "post_games b (final rs) = (Response 201 (GameJson ?g), ?s')"
      by (rule post_games_truthy [OF t pl])
    have older: "\<forall>y\<in>set (games (final rs)). \<not> id_matches q y"
      using ids_fresh_final [of rs] q by (auto simp: ids_fresh_def list_all_iff id_matches_def)
    have m: "id_matches q ?g"
      using q by (simp add: id_matches_def newGame_def)
    have "games ?s' = games (final rs) @ ?g # []" by simp
    from get_games_id_found [OF this older m] post show ?thesis by simp
  qed
  have found: "get_games_id p (final rs) = (Response 200 (GameJson g), final rs)"
    if mem: "g \<in> set (games (final rs))" and m: "id_matches p g"
  proof -
    from ids_fresh_member [OF ids_fresh_final mem m] obtain ys zs
      where "games (final rs) = ys @ g # zs" "\<forall>y\<in>set ys. \<not> id_matches p y"
      by blast
    from get_games_id_found [OF this m] show ?thesis .
  qed
  have none: "list_all (\<lambda>x. \<not> id_matches p x) (games s) \<longrightarrow>
        get_games_id p s = (Response 404 (ErrorJson NotFoundError), s)"
    by (simp add: list_all_iff get_games_id_none)
  from create found none numeral show ?thesis by blast
qed

theorem get_after_create_witness:
  "truthy (body_prop mario ''title'') \<and> truthy (body_prop mario ''platform'')
   \<and> parseInt ''2'' = Some (currentId (final [PostGames halo]))
   \<and> fst (post_games mario (final [PostGames halo])) = Response 201 (GameJson (newGame mario 2))
   \<and> fst (get_games_id ''2'' (snd (post_games mario (final [PostGames halo]))))
       = Response 200 (GameJson (newGame mario 2))
   \<and> newGame halo 1 \<in> set (games (final [PostGames halo]))
   \<and> id_matches '' 01'' (newGame halo 1)
   \<and> fst (get_games_id '' 01'' (final [PostGames halo])) = Response 200 (GameJson (newGame halo 1))
   \<and> list_all (\<lambda>x. \<not> id_matches ''2'' x) (games (final [PostGames halo]))
   \<and> fst (get_games_id ''2'' (final [PostGames halo])) = Response 404 (ErrorJson NotFoundError)
   \<and> decimal (nat (currentId (final [PostGames halo]))) = ''2''"
  using get_after_create
      [of mario "''2''" "[PostGames halo]" "newGame halo 1" "'' 01''" "final [PostGames halo]"]
    get_after_create
      [of mario "''2''" "[PostGames halo]" "newGame halo 1" "''2''" "final [PostGames halo]"]
  by (simp add: eval_defs decimal.simps)

section \<open>List\<close>

text \<open>
  C8. Listing always answers 200 with the whole collection and leaves the store alone. After
  any run from the empty store the number of records is the number of creates that answered
  201 minus the number of deletes that answered 200, and the records stand in the order of
  their creation: their identifiers are a subsequence of the identifiers in creation order,
  and increase.
\<close>

theorem list_length_counts:
  "get_games s = (Response 200 (GamesJson (games s)), s)
   \<and> int (length (games (final rs)))
       = int (length (filter create_ok (fst (exec rs init_store))))
         - int (length (filter delete_ok (fst (exec rs init_store))))
   \<and> subseq (map id_game (games (final rs))) (map id_game (created rs init_store))
   \<and> sorted_wrt (<) (map id_game (games (final rs)))"
proof -
  have list: "get_games s = (Response 200 (GamesJson (games s)), s)"
    by (simp add: get_games_def)
  have count: "int (length (games (final rs)))
       = int (length (filter create_ok (fst (exec rs init_store))))
         - int (length (filter delete_ok (fst (exec rs init_store))))"
    using length_exec [of rs init_store] by (simp add: final_def init_store_def)
  have order: "subseq (map id_game (games (final rs))) (map id_game (created rs init_store))"
    using subseq_exec [of rs init_store] by (simp add: final_def init_store_def)
  have incr: "sorted_wrt (<) (map id_game (games (final rs)))"
    using ids_fresh_final [of rs] by (simp add: ids_fresh_def)
  from list count order incr show ?thesis by simp
qed

theorem list_length_counts_witness:
  "fst (get_games (final [PostGames halo, PostGames mario, DeleteGamesId ''1'', DeleteGamesId ''1'',
          PostGames Map.empty]))
     = Response 200 (GamesJson [newGame mario 2])
   \<and> length (filter create_ok (fst (exec [PostGames halo, PostGames mario, DeleteGamesId ''1'',
          DeleteGamesId ''1'', PostGames Map.empty] init_store))) = 2
   \<and> length (filter delete_ok (fst (exec [PostGames halo, PostGames mario, DeleteGamesId ''1'',
          DeleteGamesId ''1'', PostGames Map.empty] init_store))) = 1
   \<and> int (length (games (final [PostGames halo, PostGames mario, DeleteGamesId ''1'',
          DeleteGamesId ''1'', PostGames Map.empty]))) = 2 - 1"
  using list_length_counts
      [of "final [PostGames halo, PostGames mario, DeleteGamesId ''1'', DeleteGamesId ''1'',
          PostGames Map.empty]"
          "[PostGames halo, PostGames mario, DeleteGamesId ''1'', DeleteGamesId ''1'',
          PostGames Map.empty]"]
  by (simp add: eval_defs)

section \<open>Port\<close>

text \<open>
  C9. The port is the value of the environment variable \<open>PORT\<close> when that is set to a
  non-empty string, and the default 3000, the constant of the first listing, when the variable
  is absent.
\<close>

theorem port_default:
  "PORT env = (case env ''PORT'' of
                 None \<Rightarrow> JNum port
               | Some v \<Rightarrow> if v = [] then JNum port else JStr v)
   \<and> port = 3000"
  by (simp add: PORT_def port_def js_or_def split: option.splits)

theorem port_default_witness:
  "PORT Map.empty = JNum 3000 \<and> PORT [''PORT'' \<mapsto> ''8080''] = JStr ''8080''
   \<and> PORT [''HOME'' \<mapsto> ''/root''] = JNum 3000"
  using port_default [of Map.empty] port_default [of "[''PORT'' \<mapsto> ''8080'']"]
    port_default [of "[''HOME'' \<mapsto> ''/root'']"]
  by simp

section \<open>Identifiers that match nothing\<close>

text \<open>
  C10. When the path parameter parses to a number that no stored record has as identifier,
  or to \<open>NaN\<close>, as a string without leading digits does, then read, update and delete
  all answer 404 with the not-found error and return the store as it was. The handlers have
  no other failure.
\<close>

theorem unmatched_id_not_found:
  "(list_all (\<lambda>g. parseInt p \<noteq> Some (id_game g)) (games s) \<longrightarrow>
      get_games_id p s = (Response 404 (ErrorJson NotFoundError), s)
    \<and> put_games_id p b s = (Response 404 (ErrorJson NotFoundError), s)
    \<and> delete_games_id p s = (Response 404 (ErrorJson NotFoundError), s))
   \<and> (parseInt p = None \<longrightarrow>
      get_games_id p s = (Response 404 (ErrorJson NotFoundError), s)
    \<and> put_games_id p b s = (Response 404 (ErrorJson NotFoundError), s)
    \<and> delete_games_id p s = (Response 404 (ErrorJson NotFoundError), s))"
proof -
  have none: "get_games_id p s = (Response 404 (ErrorJson NotFoundError), s)
    \<and> put_games_id p b s = (Response 404 (ErrorJson NotFoundError), s)
    \<and> delete_games_id p s = (Response 404 (ErrorJson NotFoundError), s)"
    if "\<forall>x\<in>set (games s). \<not> id_matches p x"
    using that by (simp add: get_games_id_none put_games_id_none delete_games_id_none)
  have unmatched: "\<forall>x\<in>set (games s). \<not> id_matches p x"
    if "list_all (\<lambda>g. parseInt p \<noteq> Some (id_game g)) (games s)"
    using that by (simp add: list_all_iff id_matches_def)
  have nan: "\<forall>x\<in>set (games s). \<not> id_matches p x" if "parseInt p = None"
    using that by (simp add: id_matches_def)
  from none unmatched nan show ?thesis by blast
qed

theorem unmatched_id_not_found_witness:
  "parseInt ''abc'' = None
   \<and> get_games_id ''abc'' (final [PostGames halo])
       = (Response 404 (ErrorJson NotFoundError), final [PostGames halo])
   \<and> put_games_id ''abc'' mario (final [PostGames halo])
       = (Response 404 (ErrorJson NotFoundError), final [PostGames halo])
   \<and> delete_games_id ''abc'' (final [PostGames halo])
       = (Response 404 (ErrorJson NotFoundError), final [PostGames halo])
   \<and> parseInt ''2'' = Some 2
   \<and> list_all (\<lambda>g. parseInt ''2'' \<noteq> Some (id_game g)) (games (final [PostGames halo]))
   \<and> delete_games_id ''2'' (final [PostGames halo])
       = (Response 404 (ErrorJson NotFoundError), final [PostGames halo])
   \<and> games (final [PostGames halo]) = [newGame halo 1]"
proof -
  have n: "parseInt ''abc'' = None"
    by (simp add: eval_defs)
  have t: "parseInt ''2'' = Some 2"
    by (simp add: eval_defs)
  have g: "games (final [PostGames halo]) = [newGame halo 1]"
    by (simp add: eval_defs)
  have h: "list_all (\<lambda>g. parseInt ''2'' \<noteq> Some (id_game g)) (games (final [PostGames halo]))"
    by (simp add: g t newGame_def)
  from unmatched_id_not_found [of "''abc''" "final [PostGames halo]" mario]
    unmatched_id_not_found [of "''2''" "final [PostGames halo]" mario] n t g h
  show ?thesis by simp
qed

end
